theory Spec2Isabelle
  imports Complex_Main "HOL-Library.Word" "HOL-Library.Sublist"
begin

section \<open>Library functions the program imports\<close>

text \<open>
  The program is TypeScript on Node.js.  The functions it takes from the runtime and from
  npm packages are not part of the repository, so the pure ones are parameters of the model,
  collected in one record: the \<open>path\<close> module, \<open>String.prototype.toLowerCase\<close> (its
  Unicode table), and the two per-pixel computations of the \<open>pixelmatch\<close> package, which
  are floating-point colour arithmetic.
\<close>

type_synonym byte = "8 word"

record lib =
  path_join :: "string \<Rightarrow> string \<Rightarrow> string"
  path_relative :: "string \<Rightarrow> string \<Rightarrow> string"
  path_dirname :: "string \<Rightarrow> string"
  toLowerCase :: "string \<Rightarrow> string"
  pixel_differs :: "byte list \<Rightarrow> byte list \<Rightarrow> nat \<Rightarrow> nat \<Rightarrow> nat \<Rightarrow> nat \<Rightarrow> bool"
  diff_output :: "byte list \<Rightarrow> byte list \<Rightarrow> nat \<Rightarrow> nat \<Rightarrow> byte list"

section \<open>screenshot.ts: sanitizeFilename\<close>

text \<open>
  \<^verbatim>\<open>name.toLowerCase().replace(/[^a-z0-9-]/g, '-').replace(/-+/g, '-')
      .replace(/^-|-$/g, '').slice(0, 50)\<close>
  Each regular-expression replacement is one function below, in the order of the chain.
  A JavaScript string is a list of characters here.  A character beyond ASCII is outside
  the class \<open>[a-z0-9-]\<close> however it is encoded, and what replaces it ends in a single
  hyphen after the second replacement, so the encoding does not show in the result.
\<close>

definition filename_char :: "char \<Rightarrow> bool" where
  "filename_char c \<longleftrightarrow> c \<in> set ''abcdefghijklmnopqrstuvwxyz0123456789-''"

text \<open>\<^verbatim>\<open>.replace(/[^a-z0-9-]/g, '-')\<close>: every character outside the class becomes a hyphen.\<close>

definition replace_invalid :: "string \<Rightarrow> string" where
  "replace_invalid s = map (\<lambda>c. if filename_char c then c else CHR ''-'') s"

text \<open>\<^verbatim>\<open>.replace(/-+/g, '-')\<close>: every maximal run of hyphens becomes one hyphen.\<close>

fun collapse_hyphens :: "string \<Rightarrow> string" where
  "collapse_hyphens [] = []"
| "collapse_hyphens [c] = [c]"
| "collapse_hyphens (a # b # cs) =
     (if a = CHR ''-'' \<and> b = CHR ''-'' then collapse_hyphens (b # cs)
      else a # collapse_hyphens (b # cs))"

text \<open>
  \<^verbatim>\<open>.replace(/^-|-$/g, '')\<close>: one hyphen at the start is removed, and one hyphen at the
  end of what follows.
\<close>

definition strip_edge_hyphens :: "string \<Rightarrow> string" where
  "strip_edge_hyphens s =
     (let s1 = (case s of [] \<Rightarrow> [] | c # cs \<Rightarrow> if c = CHR ''-'' then cs else c # cs)
      in if s1 \<noteq> [] \<and> last s1 = CHR ''-'' then butlast s1 else s1)"

definition sanitizeFilename :: "lib \<Rightarrow> string \<Rightarrow> string" where
  "sanitizeFilename L name =
     take 50 (strip_edge_hyphens (collapse_hyphens (replace_invalid (toLowerCase L name))))"

text \<open>
  The same pipeline in the words of the specification: lowercase, replace each run of
  characters outside \<open>[a-z0-9-]\<close> by a single hyphen, trim the leading and the trailing
  hyphens, truncate.
\<close>

fun replace_runs_from :: "bool \<Rightarrow> string \<Rightarrow> string" where
  "replace_runs_from in_run [] = []"
| "replace_runs_from in_run (c # cs) =
     (if filename_char c then c # replace_runs_from False cs
      else if in_run then replace_runs_from True cs
      else CHR ''-'' # replace_runs_from True cs)"

definition replace_runs :: "string \<Rightarrow> string" where
  "replace_runs s = replace_runs_from False s"

definition trim_hyphens :: "string \<Rightarrow> string" where
  "trim_hyphens s =
     rev (dropWhile (\<lambda>c. c = CHR ''-'') (rev (dropWhile (\<lambda>c. c = CHR ''-'') s)))"

definition sanitize_spec :: "lib \<Rightarrow> string \<Rightarrow> string" where
  "sanitize_spec L name = take 50 (trim_hyphens (replace_runs (toLowerCase L name)))"

text \<open>An ASCII instance of \<open>toLowerCase\<close>, exact on ASCII input, for concrete evaluation.\<close>

definition ascii_lower :: "string \<Rightarrow> string" where
  "ascii_lower s =
     map (\<lambda>c. case map_of (zip ''ABCDEFGHIJKLMNOPQRSTUVWXYZ'' ''abcdefghijklmnopqrstuvwxyz'') c of
                None \<Rightarrow> c | Some l \<Rightarrow> l) s"

section \<open>types.ts: the data model\<close>

record dims =
  width :: nat
  height :: nat

text \<open>
  A decoded PNG of the \<open>pngjs\<close> package: dimensions and the RGBA buffer, four bytes per
  pixel, rows from the top, pixels from the left.
\<close>

record PNG = dims +
  data :: "byte list"

text \<open>
  What the decoder delivers, and the specification's RasterImage: the buffer has
  \<open>width * height * 4\<close> bytes.
\<close>

definition valid_png :: "PNG \<Rightarrow> bool" where
  "valid_png img \<longleftrightarrow> length (data img) = width img * height img * 4"

record UrlToScreenshot =
  url :: string
  slug :: string
  postType :: string
  title :: string

record ScreenshotResult = UrlToScreenshot +
  desktopPath :: string
  mobilePath :: string

text \<open>
  A JavaScript number that results from a division is modelled as an exact rational, with
  \<open>None\<close> for the non-finite results of a division by zero (\<open>NaN\<close>, \<open>Infinity\<close>); the
  rounding of IEEE doubles is not modelled.
\<close>

record DiffResult =
  diffPixels :: nat
  totalPixels :: nat
  diffPercentage :: "rat option"
  diffPath :: string
  dimensionsDiffer :: bool
  beforeDimensions :: dims
  afterDimensions :: dims

record image_paths =
  desktop_path :: string
  mobile_path :: string

record diff_pair =
  desktop :: DiffResult
  mobile :: DiffResult

record ComparisonResult = UrlToScreenshot +
  before :: image_paths
  after :: image_paths
  diff :: diff_pair

datatype cookie_mode = mode_auto | mode_custom | mode_none

record CookieConfig =
  mode :: cookie_mode
  customText :: "string option"

text \<open>
  Of \<open>ProjectConfig\<close> the fields that the modelled functions read; \<open>siteUrl\<close>, the two
  dates, \<open>urls\<close> and \<open>comparisons\<close> are left out.
\<close>

record ProjectConfig =
  projectFolder :: string
  cookieConfig :: CookieConfig
  beforeScreenshots :: "ScreenshotResult list"
  afterScreenshots :: "ScreenshotResult list"



datatype js_error = Error (message: string)

section \<open>diff.ts\<close>

subsection \<open>The file system\<close>

text \<open>
  The state that \<open>diff.ts\<close> reads and writes: what each path holds.  \<open>None\<close> is a path
  for which \<open>fs.existsSync\<close> is false.  A path that exists holds a decodable PNG, is a
  directory, or holds bytes on which \<open>PNG.sync.read\<close> throws with the given message.
  Writes and \<open>fs.mkdirSync\<close> are taken to succeed, and of the directories that a
  recursive \<open>fs.mkdirSync\<close> creates only the one asked for is recorded.
\<close>

datatype fs_entry = PngFile PNG | Directory | Corrupt string

type_synonym filesystem = "string \<Rightarrow> fs_entry option"

definition existsSync :: "filesystem \<Rightarrow> string \<Rightarrow> bool" where
  "existsSync fs p \<longleftrightarrow> fs p \<noteq> None"

text \<open>
  \<^verbatim>\<open>if (!fs.existsSync(dir)) { fs.mkdirSync(dir, { recursive: true }); }\<close>, which
  \<open>compareScreenshots\<close> and \<open>generateDiffComparisons\<close> both write inline.
\<close>

definition mkdir_if_missing :: "filesystem \<Rightarrow> string \<Rightarrow> filesystem" where
  "mkdir_if_missing fs dir = (if existsSync fs dir then fs else fs(dir \<mapsto> Directory))"

definition readPng :: "filesystem \<Rightarrow> string \<Rightarrow> js_error + PNG" where
  "readPng fs filePath =
     (case fs filePath of
        None \<Rightarrow> Inl (Error (''ENOENT: no such file or directory, open '' @ filePath))
      | Some (PngFile png) \<Rightarrow> Inr png
      | Some Directory \<Rightarrow> Inl (Error ''EISDIR: illegal operation on a directory, read'')
      | Some (Corrupt msg) \<Rightarrow> Inl (Error msg))"

definition writePng :: "filesystem \<Rightarrow> PNG \<Rightarrow> string \<Rightarrow> filesystem" where
  "writePng fs png filePath = fs(filePath \<mapsto> PngFile png)"

subsection \<open>padImage\<close>

text \<open>
  \<open>new PNG({ width, height })\<close> allocates a zero-filled buffer.  An assignment to a buffer
  index out of range is ignored, as \<open>list_update\<close> does; a read out of range gives
  \<open>undefined\<close>, which a buffer stores as 0.
\<close>

definition new_PNG :: "nat \<Rightarrow> nat \<Rightarrow> PNG" where
  "new_PNG w h = \<lparr>width = w, height = h, data = replicate (w * h * 4) 0\<rparr>"

definition buf_at :: "byte list \<Rightarrow> nat \<Rightarrow> byte" where
  "buf_at buf i = (if i < length buf then buf ! i else 0)"

definition set_rgba :: "byte list \<Rightarrow> nat \<Rightarrow> byte \<Rightarrow> byte \<Rightarrow> byte \<Rightarrow> byte \<Rightarrow> byte list" where
  "set_rgba buf idx r g b a = buf[idx := r, idx + 1 := g, idx + 2 := b, idx + 3 := a]"

text \<open>The first pair of loops of \<open>padImage\<close>: every pixel of the target becomes white.\<close>

definition fill_white :: "nat \<Rightarrow> nat \<Rightarrow> byte list \<Rightarrow> byte list" where
  "fill_white targetWidth targetHeight buf =
     fold (\<lambda>y. fold (\<lambda>x b. set_rgba b ((targetWidth * y + x) * 4) 255 255 255 255)
                  [0..<targetWidth])
          [0..<targetHeight] buf"

text \<open>The second pair of loops: the pixels of the original are copied to the same row and column.\<close>

definition copy_pixels :: "PNG \<Rightarrow> nat \<Rightarrow> byte list \<Rightarrow> byte list" where
  "copy_pixels png targetWidth buf =
     fold (\<lambda>y. fold (\<lambda>x b. set_rgba b ((targetWidth * y + x) * 4)
                          (buf_at (data png) ((width png * y + x) * 4))
                          (buf_at (data png) ((width png * y + x) * 4 + 1))
                          (buf_at (data png) ((width png * y + x) * 4 + 2))
                          (buf_at (data png) ((width png * y + x) * 4 + 3)))
                  [0..<width png])
          [0..<height png] buf"

definition padImage :: "PNG \<Rightarrow> nat \<Rightarrow> nat \<Rightarrow> PNG" where
  "padImage png targetWidth targetHeight =
     (if width png = targetWidth \<and> height png = targetHeight then png
      else let padded = new_PNG targetWidth targetHeight
           in padded\<lparr>data := copy_pixels png targetWidth
                                (fill_white targetWidth targetHeight (data padded))\<rparr>)"

subsection \<open>pixelmatch\<close>

text \<open>
  The \<open>pixelmatch\<close> package is a dependency, not code of the repository.  The model
  follows the package's algorithm: it throws when the three buffers do not have the same
  length or that length is not \<open>width * height * 4\<close>, returns 0 at once when the two
  buffers are identical, and otherwise counts the pixel positions that its colour test
  finds different.  That test (a YIQ colour distance against the threshold and an
  anti-aliasing check on the neighbours, in floating point) is the parameter
  \<open>pixel_differs\<close>; the bytes it draws into the output buffer are \<open>diff_output\<close>.
\<close>

definition pixel_positions :: "nat \<Rightarrow> nat \<Rightarrow> (nat \<times> nat) list" where
  "pixel_positions w h = concat (map (\<lambda>y. map (\<lambda>x. (x, y)) [0..<w]) [0..<h])"

definition pixelmatch ::
  "lib \<Rightarrow> byte list \<Rightarrow> byte list \<Rightarrow> byte list \<Rightarrow> nat \<Rightarrow> nat \<Rightarrow> js_error + nat" where
  "pixelmatch L img1 img2 output w h =
     (if length img1 \<noteq> length img2 \<or> length output \<noteq> length img1
      then Inl (Error ''Image sizes do not match.'')
      else if length img1 \<noteq> w * h * 4
      then Inl (Error ''Image data size does not match width/height.'')
      else if img1 = img2 then Inr 0
      else Inr (length (filter (\<lambda>(x, y). pixel_differs L img1 img2 w h x y)
                          (pixel_positions w h))))"

subsection \<open>compareScreenshots\<close>

definition js_div :: "nat \<Rightarrow> nat \<Rightarrow> rat option" where
  "js_div a b = (if b = 0 then None else Some (of_nat a / of_nat b))"

text \<open>
  The function returns its result, or the error it throws, and the file system it leaves.
  \<open>w\<close> and \<open>h\<close> are the source's \<open>width\<close> and \<open>height\<close>; \<open>img1'\<close> and \<open>img2'\<close> are
  \<open>img1\<close> and \<open>img2\<close> after the reassignment in the \<open>if (dimensionsDiffer)\<close> block.
  No caller passes \<open>options\<close>; the defaults are part of \<open>pixel_differs\<close> and \<open>diff_output\<close>.
\<close>

definition compareScreenshots ::
  "lib \<Rightarrow> filesystem \<Rightarrow> string \<Rightarrow> string \<Rightarrow> string \<Rightarrow> (js_error + DiffResult) \<times> filesystem" where
  "compareScreenshots L fs beforePath afterPath diffPath' =
     (if \<not> existsSync fs beforePath
      then (Inl (Error (''Before screenshot not found: '' @ beforePath)), fs)
      else if \<not> existsSync fs afterPath
      then (Inl (Error (''After screenshot not found: '' @ afterPath)), fs)
      else
       (case readPng fs beforePath of
          Inl e \<Rightarrow> (Inl e, fs)
        | Inr img1 \<Rightarrow>
           (case readPng fs afterPath of
              Inl e \<Rightarrow> (Inl e, fs)
            | Inr img2 \<Rightarrow>
               (let w = max (width img1) (width img2);
                    h = max (height img1) (height img2);
                    dimensionsDiffer' =
                      (width img1 \<noteq> width img2 \<or> height img1 \<noteq> height img2);
                    img1' = (if dimensionsDiffer' then padImage img1 w h else img1);
                    img2' = (if dimensionsDiffer' then padImage img2 w h else img2);
                    diff' = new_PNG w h
                in case pixelmatch L (data img1') (data img2') (data diff') w h of
                     Inl e \<Rightarrow> (Inl e, fs)
                   | Inr diffPixels' \<Rightarrow>
                      (let totalPixels' = w * h;
                           diffPercentage' =
                             map_option (\<lambda>q. q * 100) (js_div diffPixels' totalPixels');
                           diffDir = path_dirname L diffPath';
                           fs1 = mkdir_if_missing fs diffDir;
                           fs2 = writePng fs1
                                   (diff'\<lparr>data := diff_output L (data img1') (data img2') w h\<rparr>)
                                   diffPath'
                       in (Inr \<lparr>diffPixels = diffPixels',
                                 totalPixels = totalPixels',
                                 diffPercentage = diffPercentage',
                                 diffPath = diffPath',
                                 dimensionsDiffer = dimensionsDiffer',
                                 beforeDimensions = \<lparr>width = width img1', height = height img1'\<rparr>,
                                 afterDimensions = \<lparr>width = width img2', height = height img2'\<rparr>\<rparr>,
                           fs2))))))"


section \<open>index.ts: generateDiffComparisons\<close>

text \<open>
  The body of the \<open>for\<close> loop, for one record of \<open>config.beforeScreenshots\<close>.  The state
  of the loop is the array \<open>comparisons\<close> and the file system.  \<open>continue\<close> and the
  \<open>catch\<close> block both leave \<open>comparisons\<close> as it is; the \<open>catch\<close> block catches
  whatever either call of \<open>compareScreenshots\<close> throws.  Console output is not modelled.
\<close>

definition find_after :: "ProjectConfig \<Rightarrow> ScreenshotResult \<Rightarrow> ScreenshotResult option" where
  "find_after config b =
     find (\<lambda>a. slug a = slug b \<and> postType a = postType b) (afterScreenshots config)"

definition compare_pair ::
  "lib \<Rightarrow> ProjectConfig \<Rightarrow> string \<Rightarrow> ScreenshotResult \<Rightarrow>
   ComparisonResult list \<times> filesystem \<Rightarrow> ComparisonResult list \<times> filesystem" where
  "compare_pair L config diffFolder b st =
     (case st of (comparisons, fs) \<Rightarrow>
      (case find_after config b of
         None \<Rightarrow> (comparisons, fs)
       | Some a \<Rightarrow>
          (let beforeDesktopPath = path_join L (projectFolder config) (desktopPath b);
               afterDesktopPath = path_join L (projectFolder config) (desktopPath a);
               desktopDiffPath =
                 path_join L diffFolder (postType b @ ''-'' @ slug b @ ''-desktop-diff.png'')
           in case compareScreenshots L fs beforeDesktopPath afterDesktopPath desktopDiffPath of
                (Inl e, fs1) \<Rightarrow> (comparisons, fs1)
              | (Inr desktopDiff, fs1) \<Rightarrow>
                 (let beforeMobilePath = path_join L (projectFolder config) (mobilePath b);
                      afterMobilePath = path_join L (projectFolder config) (mobilePath a);
                      mobileDiffPath =
                        path_join L diffFolder (postType b @ ''-'' @ slug b @ ''-mobile-diff.png'')
                  in case compareScreenshots L fs1 beforeMobilePath afterMobilePath mobileDiffPath of
                       (Inl e, fs2) \<Rightarrow> (comparisons, fs2)
                     | (Inr mobileDiff, fs2) \<Rightarrow>
                        (comparisons @
                           [\<lparr>url = url b, slug = slug b, postType = postType b, title = title b,
                             before = \<lparr>desktop_path = desktopPath b, mobile_path = mobilePath b\<rparr>,
                             after = \<lparr>desktop_path = desktopPath a, mobile_path = mobilePath a\<rparr>,
                             diff = \<lparr>desktop = desktopDiff, mobile = mobileDiff\<rparr>\<rparr>],
                         fs2)))))"

definition generateDiffComparisons ::
  "lib \<Rightarrow> ProjectConfig \<Rightarrow> filesystem \<Rightarrow> ComparisonResult list \<times> filesystem" where
  "generateDiffComparisons L config fs =
     (let diffFolder = path_join L (projectFolder config) ''diff''
      in fold (compare_pair L config diffFolder) (beforeScreenshots config)
           ([], mkdir_if_missing fs diffFolder))"

subsection \<open>The pairing in the words of the specification\<close>


definition pairs_of ::
  "ProjectConfig \<Rightarrow> ScreenshotResult list \<Rightarrow> (ScreenshotResult \<times> ScreenshotResult) list" where
  "pairs_of config bs = List.map_filter (\<lambda>b. map_option (Pair b) (find_after config b)) bs"





definition readable :: "filesystem \<Rightarrow> string \<Rightarrow> bool" where
  "readable fs p = (case fs p of Some (PngFile img) \<Rightarrow> valid_png img | _ \<Rightarrow> False)"

section \<open>screenshot.ts: the capture\<close>

subsection \<open>The browser and the other effects\<close>

text \<open>
  The capture drives a browser through Playwright.  Each call the code awaits is a value
  of \<open>call\<close>; the calls made so far, in order, are the state.  The world answers a call
  depending on everything that happened before: whether it rejects (throws), and, for a
  call that returns a boolean or a number and resolves, with what.  Every call is taken to
  settle.  \<open>ExistsSync\<close> and \<open>MkdirSync\<close> are the two file-system calls of \<open>ensureDir\<close>.
  Of the console output, only the \<open>console.error\<close> of \<open>screenshotUrl\<close> is recorded.
\<close>

datatype locator =
    RoleButton string
  | ExactInteractive string
  | TextMatch string
  | AllRoleButtons
  | First locator

datatype call =
    Launch
  | NewContext
  | NewPage
  | CloseContext
  | SetViewportSize nat nat
  | Goto string
  | MouseWheel nat nat
  | WaitForTimeout nat
  | IsVisible locator
  | Count locator
  | Click locator
  | AllInnerTexts locator
  | EvaluateScroll
  | WaitForLoadState
  | Screenshot string
  | ExistsSync string
  | MkdirSync string
  | ConsoleError string

record world =
  rejects :: "call list \<Rightarrow> call \<Rightarrow> string option"
  answer :: "call list \<Rightarrow> call \<Rightarrow> bool"
  counted :: "call list \<Rightarrow> call \<Rightarrow> nat"


subsection \<open>handleCookieBanner\<close>














subsection \<open>takeScreenshot\<close>


subsection \<open>ScreenshotManager\<close>

text \<open>\<open>browser\<close> is \<open>False\<close> for the \<open>null\<close> that the field holds before \<open>init\<close>.\<close>

record ScreenshotManager =
  browser :: bool
  mgr_projectFolder :: string
  mgr_cookieConfig :: CookieConfig

definition new_ScreenshotManager :: "string \<Rightarrow> CookieConfig \<Rightarrow> ScreenshotManager" where
  "new_ScreenshotManager folder cfg =
     \<lparr>browser = False, mgr_projectFolder = folder, mgr_cookieConfig = cfg\<rparr>"



datatype phase = Before | After







section \<open>Concrete instances for evaluation\<close>

text \<open>
  An instance of the library record: POSIX paths without \<open>.\<close> and \<open>..\<close> segments, ASCII
  lowercasing, and a pixel test that compares the four bytes of the pixel.
\<close>

definition sample_lib :: lib where
  "sample_lib =
     \<lparr>path_join = (\<lambda>a b. a @ ''/'' @ b),
      path_relative = (\<lambda>from to. drop (length from + 1) to),
      path_dirname = (\<lambda>p. rev (tl (dropWhile (\<lambda>c. c \<noteq> CHR ''/'') (rev p)))),
      toLowerCase = ascii_lower,
      pixel_differs = (\<lambda>a b w h x y.
         take 4 (drop ((w * y + x) * 4) a) \<noteq> take 4 (drop ((w * y + x) * 4) b)),
      diff_output = (\<lambda>a b w h. replicate (w * h * 4) 0)\<rparr>"


text \<open>Images for concrete evaluation: one colour, and one colour above another.\<close>

definition black_pixel :: "byte list" where
  "black_pixel = [0, 0, 0, 255]"

definition white_pixel :: "byte list" where
  "white_pixel = [255, 255, 255, 255]"

definition solid_image :: "byte list \<Rightarrow> nat \<Rightarrow> nat \<Rightarrow> PNG" where
  "solid_image px w h = \<lparr>width = w, height = h, data = concat (replicate (w * h) px)\<rparr>"

definition two_band_image :: "byte list \<Rightarrow> byte list \<Rightarrow> nat \<Rightarrow> nat \<Rightarrow> nat \<Rightarrow> PNG" where
  "two_band_image upper lower w h k =
     \<lparr>width = w, height = h + k,
      data = concat (replicate (w * h) upper) @ concat (replicate (w * k) lower)\<rparr>"

text \<open>
  A file system with the four screenshots of one page: on the desktop a 2 x 2 black image
  before and a 2 x 4 image, black above white, after; on the mobile a 100 x 100 black image
  before and a 100 x 150 image after, its first 100 rows black and its last 50 white.
\<close>

definition sample_fs :: filesystem where
  "sample_fs =
     map_of [(''out/before/page-about-desktop.png'', PngFile (solid_image black_pixel 2 2)),
             (''out/after/page-about-desktop.png'',
                PngFile (two_band_image black_pixel white_pixel 2 2 2)),
             (''out/before/page-about-mobile.png'', PngFile (solid_image black_pixel 100 100)),
             (''out/after/page-about-mobile.png'',
                PngFile (two_band_image black_pixel white_pixel 100 100 50))]"

text \<open>
  A session of three pages before (a, b, c) and three after (a, c, d); the URL of page a
  changed between the phases.  Every screenshot is a 2 x 2 black image.
\<close>

definition shot :: "string \<Rightarrow> string \<Rightarrow> string \<Rightarrow> string \<Rightarrow> ScreenshotResult" where
  "shot dir pt sl u =
     \<lparr>url = u, slug = sl, postType = pt, title = sl,
      desktopPath = dir @ ''/'' @ pt @ ''-'' @ sl @ ''-desktop.png'',
      mobilePath = dir @ ''/'' @ pt @ ''-'' @ sl @ ''-mobile.png''\<rparr>"

definition session_config :: ProjectConfig where
  "session_config =
     \<lparr>projectFolder = ''out'',
      cookieConfig = \<lparr>mode = mode_auto, customText = None\<rparr>,
      beforeScreenshots =
        [shot ''before'' ''page'' ''a'' ''http://site/?p=1'',
         shot ''before'' ''page'' ''b'' ''http://site/b'',
         shot ''before'' ''post'' ''c'' ''http://site/c''],
      afterScreenshots =
        [shot ''after'' ''page'' ''a'' ''http://site/a'',
         shot ''after'' ''post'' ''c'' ''http://site/c'',
         shot ''after'' ''page'' ''d'' ''http://site/d'']\<rparr>"

definition session_fs :: filesystem where
  "session_fs =
     map_of (map (\<lambda>p. (p, PngFile (solid_image black_pixel 2 2)))
       [''out/before/page-a-desktop.png'', ''out/before/page-a-mobile.png'',
        ''out/before/page-b-desktop.png'', ''out/before/page-b-mobile.png'',
        ''out/before/post-c-desktop.png'', ''out/before/post-c-mobile.png'',
        ''out/after/page-a-desktop.png'', ''out/after/page-a-mobile.png'',
        ''out/after/post-c-desktop.png'', ''out/after/post-c-mobile.png'',
        ''out/after/page-d-desktop.png'', ''out/after/page-d-mobile.png''])"

text \<open>The same session after the desktop screenshot of page a was lost from \<open>after/\<close>.\<close>

definition session_fs_missing :: filesystem where
  "session_fs_missing = session_fs(''out/after/page-a-desktop.png'' := None)"


definition banner_world :: world where
  "banner_world =
     \<lparr>rejects = (\<lambda>tr c. None),
      answer = (\<lambda>tr c. c = IsVisible (RoleButton ''Akzeptieren'') \<or>
                         c = IsVisible (RoleButton ''Accept'')),
      counted = (\<lambda>tr c. 0)\<rparr>"




definition no_cookies :: CookieConfig where
  "no_cookies = \<lparr>mode = mode_none, customText = None\<rparr>"

definition launched_manager :: ScreenshotManager where
  "launched_manager = (new_ScreenshotManager ''out'' no_cookies)\<lparr>browser := True\<rparr>"

section \<open>Verification: sanitizeFilename\<close>

lemma collapse_hyphens_head: "\<exists>r. collapse_hyphens (b # cs) = b # r"
proof (induction cs arbitrary: b)
  case Nil
  show ?case by simp
next
  case (Cons c cs)
  from Cons [of c] obtain r where "collapse_hyphens (c # cs) = c # r" by blast
  then show ?case by auto
qed

lemma collapse_hyphens_Cons:
  "collapse_hyphens (c # xs) =
     (case collapse_hyphens xs of [] \<Rightarrow> [c]
      | d # r \<Rightarrow> if c = CHR ''-'' \<and> d = CHR ''-'' then d # r else c # d # r)"
proof (cases xs)
  case Nil
  then show ?thesis by simp
next
  case (Cons b cs)
  obtain r where "collapse_hyphens (b # cs) = b # r"
    using collapse_hyphens_head by blast
  with Cons show ?thesis by auto
qed

lemma collapse_hyphens_successively:
  "successively (\<lambda>a b. \<not> (a = CHR ''-'' \<and> b = CHR ''-'')) (collapse_hyphens s)"
proof (induction s)
  case Nil
  show ?case by simp
next
  case (Cons c cs)
  then show ?case
    by (auto simp: collapse_hyphens_Cons successively_Cons split: list.splits)
qed

lemma set_collapse_hyphens: "set (collapse_hyphens s) \<subseteq> set s"
proof (induction s)
  case Nil
  show ?case by simp
next
  case (Cons c cs)
  then show ?case
    by (auto simp: collapse_hyphens_Cons split: list.splits if_splits)
qed

lemma dropWhile_hyphen_no_double:
  assumes "successively (\<lambda>a b. \<not> (a = CHR ''-'' \<and> b = CHR ''-'')) s"
  shows "dropWhile (\<lambda>c. c = CHR ''-'') s =
           (case s of [] \<Rightarrow> [] | c # cs \<Rightarrow> if c = CHR ''-'' then cs else c # cs)"
proof (cases s)
  case Nil
  then show ?thesis by simp
next
  case (Cons c cs)
  show ?thesis
  proof (cases cs)
    case Nil
    with Cons show ?thesis by simp
  next
    case (Cons d ds)
    with \<open>s = c # cs\<close> assms show ?thesis by auto
  qed
qed

lemma strip_edge_hyphens_eq_trim:
  assumes "successively (\<lambda>a b. \<not> (a = CHR ''-'' \<and> b = CHR ''-'')) s"
  shows "strip_edge_hyphens s = trim_hyphens s"
proof -
  define s1 where "s1 = (case s of [] \<Rightarrow> [] | c # cs \<Rightarrow> if c = CHR ''-'' then cs else c # cs)"
  have d1: "dropWhile (\<lambda>c. c = CHR ''-'') s = s1"
    unfolding s1_def by (rule dropWhile_hyphen_no_double [OF assms])
  have "successively (\<lambda>a b. \<not> (a = CHR ''-'' \<and> b = CHR ''-'')) s1"
    using assms unfolding s1_def by (cases s) (auto simp: successively_Cons)
  moreover have "(\<lambda>x y. \<not> (y = CHR ''-'' \<and> x = CHR ''-'')) = (\<lambda>a b. \<not> (a = CHR ''-'' \<and> b = CHR ''-''))"
    by (intro ext) blast
  ultimately have "successively (\<lambda>a b. \<not> (a = CHR ''-'' \<and> b = CHR ''-'')) (rev s1)"
    by (simp only: successively_rev)
  from dropWhile_hyphen_no_double [OF this]
  have "rev (dropWhile (\<lambda>c. c = CHR ''-'') (rev s1)) =
          (if s1 \<noteq> [] \<and> last s1 = CHR ''-'' then butlast s1 else s1)"
    by (cases s1 rule: rev_cases) auto
  then show ?thesis
    unfolding strip_edge_hyphens_def trim_hyphens_def d1 s1_def [symmetric] Let_def by simp
qed

lemma collapse_replace_runs:
  "collapse_hyphens (replace_invalid t) = collapse_hyphens (replace_runs_from False t) \<and>
   collapse_hyphens (CHR ''-'' # replace_invalid t) =
     collapse_hyphens (CHR ''-'' # replace_runs_from True t)"
proof (induction t)
  case Nil
  show ?case by (simp add: replace_invalid_def)
next
  case (Cons c cs)
  from Cons have ih1: "collapse_hyphens (replace_invalid cs) = collapse_hyphens (replace_runs_from False cs)"
    and ih2: "collapse_hyphens (CHR ''-'' # replace_invalid cs) =
     collapse_hyphens (CHR ''-'' # replace_runs_from True cs)" by simp_all
  show ?case
  proof (cases "filename_char c")
    case True
    have a: "replace_invalid (c # cs) = c # replace_invalid cs"
      using True by (simp add: replace_invalid_def)
    have "collapse_hyphens (c # replace_invalid cs) = collapse_hyphens (c # replace_runs_from False cs)"
      by (simp only: collapse_hyphens_Cons [of c] ih1)
    moreover from this
    have "collapse_hyphens (CHR ''-'' # c # replace_invalid cs) =
          collapse_hyphens (CHR ''-'' # c # replace_runs_from False cs)"
      by (simp only: collapse_hyphens_Cons [of "CHR ''-''"])
    ultimately show ?thesis using True by (simp only: a replace_runs_from.simps if_True)
  next
    case False
    have a: "replace_invalid (c # cs) = CHR ''-'' # replace_invalid cs"
      using False by (simp add: replace_invalid_def)
    show ?thesis using False ih2 by (simp add: a)
  qed
qed

lemma set_strip_edge_hyphens: "set (strip_edge_hyphens s) \<subseteq> set s"
  unfolding strip_edge_hyphens_def Let_def
  by (auto split: list.splits if_splits dest: in_set_butlastD)

lemma trim_hyphens_hd: "trim_hyphens s \<noteq> [] \<Longrightarrow> hd (trim_hyphens s) \<noteq> CHR ''-''"
proof -
  assume ne: "trim_hyphens s \<noteq> []"
  define d where "d = dropWhile (\<lambda>c. c = CHR ''-'') s"
  have t: "trim_hyphens s = rev (dropWhile (\<lambda>c. c = CHR ''-'') (rev d))"
    by (simp add: trim_hyphens_def d_def)
  from ne t have dne: "d \<noteq> []" by auto
  then have hd_d: "hd d \<noteq> CHR ''-''" unfolding d_def using hd_dropWhile [of "\<lambda>c. c = CHR ''-''" s] by simp
  obtain x xs where dx: "d = x # xs" using dne by (cases d) auto
  with hd_d have "x \<noteq> CHR ''-''" by simp
  have "rev (dropWhile (\<lambda>c. c = CHR ''-'') (rev d)) =
          x # (if \<forall>y\<in>set xs. y = CHR ''-'' then []
               else rev (dropWhile (\<lambda>c. c = CHR ''-'') (rev xs)))"
    using \<open>x \<noteq> CHR ''-''\<close> unfolding dx
    by (simp add: dropWhile_append)
  then show ?thesis using t \<open>x \<noteq> CHR ''-''\<close> by simp
qed

lemma trim_hyphens_last: "trim_hyphens s \<noteq> [] \<Longrightarrow> last (trim_hyphens s) \<noteq> CHR ''-''"
  unfolding trim_hyphens_def
  using hd_dropWhile [of "\<lambda>c. c = CHR ''-''" "rev (dropWhile (\<lambda>c. c = CHR ''-'') s)"]
  by (simp add: last_rev)


lemma replace_invalid_chars: "c \<in> set (replace_invalid s) \<Longrightarrow> filename_char c"
  by (auto simp: replace_invalid_def filename_char_def)

lemma sanitizeFilename_trim:
  "sanitizeFilename L name =
     take 50 (trim_hyphens (collapse_hyphens (replace_runs (toLowerCase L name))))"
proof -
  have "collapse_hyphens (replace_invalid (toLowerCase L name)) =
        collapse_hyphens (replace_runs (toLowerCase L name))"
    using collapse_replace_runs [of "toLowerCase L name"] by (simp add: replace_runs_def)
  then show ?thesis
    unfolding sanitizeFilename_def
    using strip_edge_hyphens_eq_trim [OF collapse_hyphens_successively [of "replace_invalid (toLowerCase L name)"]]
    by simp
qed

lemma sanitizeFilename_chars: "c \<in> set (sanitizeFilename L name) \<Longrightarrow> filename_char c"
proof -
  assume "c \<in> set (sanitizeFilename L name)"
  then have "c \<in> set (strip_edge_hyphens (collapse_hyphens (replace_invalid (toLowerCase L name))))"
    unfolding sanitizeFilename_def by (rule in_set_takeD)
  then have "c \<in> set (replace_invalid (toLowerCase L name))"
    using set_strip_edge_hyphens set_collapse_hyphens by blast
  then show ?thesis by (rule replace_invalid_chars)
qed

text \<open>
  Claim C8, as the code has it.  \<open>sanitizeFilename\<close> lowercases, replaces each run of
  characters outside \<open>[a-z0-9-]\<close> by a single hyphen, collapses every run of hyphens to
  one hyphen, trims the leading and the trailing hyphens and keeps the first 50 characters.
  Every output consists of characters in \<open>[a-z0-9-]\<close>, has at most 50 characters and no
  leading hyphen; it has no trailing hyphen when the trimmed string had at most 50
  characters, that is when the truncation cut nothing off.
\<close>

theorem sanitizeFilename_pipeline:
  "sanitizeFilename L name =
     take 50 (trim_hyphens (collapse_hyphens (replace_runs (toLowerCase L name)))) \<and>
   (\<forall>c \<in> set (sanitizeFilename L name). filename_char c) \<and>
   length (sanitizeFilename L name) \<le> 50 \<and>
   (sanitizeFilename L name \<noteq> [] \<longrightarrow> hd (sanitizeFilename L name) \<noteq> CHR ''-'') \<and>
   (length (trim_hyphens (collapse_hyphens (replace_runs (toLowerCase L name)))) \<le> 50 \<and>
      sanitizeFilename L name \<noteq> [] \<longrightarrow> last (sanitizeFilename L name) \<noteq> CHR ''-'')"
proof -
  define u where "u = trim_hyphens (collapse_hyphens (replace_runs (toLowerCase L name)))"
  have eq: "sanitizeFilename L name = take 50 u"
    unfolding u_def by (rule sanitizeFilename_trim)
  have chars: "\<forall>c \<in> set (sanitizeFilename L name). filename_char c"
    using sanitizeFilename_chars by blast
  have len: "length (sanitizeFilename L name) \<le> 50"
    by (simp add: eq)
  have lead: "sanitizeFilename L name \<noteq> [] \<longrightarrow> hd (sanitizeFilename L name) \<noteq> CHR ''-''"
  proof
    assume "sanitizeFilename L name \<noteq> []"
    then have "u \<noteq> []" by (auto simp: eq)
    then have "hd u \<noteq> CHR ''-''" unfolding u_def by (rule trim_hyphens_hd)
    then show "hd (sanitizeFilename L name) \<noteq> CHR ''-''" by (simp add: eq)
  qed
  have trail: "length u \<le> 50 \<and> sanitizeFilename L name \<noteq> [] \<longrightarrow>
                 last (sanitizeFilename L name) \<noteq> CHR ''-''"
  proof
    assume a: "length u \<le> 50 \<and> sanitizeFilename L name \<noteq> []"
    then have same: "sanitizeFilename L name = u" by (simp add: eq)
    with a have "u \<noteq> []" by simp
    then have "last u \<noteq> CHR ''-''" unfolding u_def by (rule trim_hyphens_last)
    then show "last (sanitizeFilename L name) \<noteq> CHR ''-''" by (simp add: same)
  qed
  from eq chars len lead trail show ?thesis unfolding u_def by blast
qed

lemma sample_lib_toLowerCase: "toLowerCase sample_lib = ascii_lower"
  by (simp add: sample_lib_def)

theorem sanitizeFilename_pipeline_witness:
  "sanitizeFilename sample_lib ''Hello, World! --v2--'' = ''hello-world-v2'' \<and>
   list_all filename_char ''hello-world-v2'' \<and>
   hd ''hello-world-v2'' \<noteq> CHR ''-'' \<and> last ''hello-world-v2'' \<noteq> CHR ''-''"
proof -
  have low: "toLowerCase sample_lib ''Hello, World! --v2--'' = ''hello, world! --v2--''"
    by (simp add: sample_lib_toLowerCase ascii_lower_def)
  have e: "trim_hyphens (collapse_hyphens (replace_runs ''hello, world! --v2--'')) = ''hello-world-v2''"
    by (simp add: trim_hyphens_def replace_runs_def filename_char_def)
  show ?thesis
    using sanitizeFilename_pipeline [of sample_lib "''Hello, World! --v2--''"]
    unfolding low e by (simp add: list_all_iff)
qed

text \<open>
  Claim C8 as stated fails: the truncation comes after the trimming, so cutting
  \<open>aaa...a-b\<close> (49 letters, a hyphen, a letter) after 50 characters leaves a trailing hyphen.
\<close>

theorem sanitizeFilename_trailing_hyphen_counterexample:
  "\<not> (sanitizeFilename sample_lib ''aaaaaaaaaaaaaaaaaaaaaaaaaaaaaaaaaaaaaaaaaaaaaaaaa-b'' \<noteq> [] \<longrightarrow>
      last (sanitizeFilename sample_lib ''aaaaaaaaaaaaaaaaaaaaaaaaaaaaaaaaaaaaaaaaaaaaaaaaa-b'')
        \<noteq> CHR ''-'')"
  by (simp add: sanitizeFilename_def sample_lib_toLowerCase ascii_lower_def replace_invalid_def
      filename_char_def strip_edge_hyphens_def)

text \<open>
  The second replacement also collapses hyphens that were in the input, which replacing only
  the runs of other characters would keep.
\<close>

lemma sanitizeFilename_collapses_existing_hyphens:
  "sanitizeFilename sample_lib ''a--b'' = ''a-b'' \<and> sanitize_spec sample_lib ''a--b'' = ''a--b''"
  by (simp add: sanitizeFilename_def sanitize_spec_def sample_lib_toLowerCase ascii_lower_def
      replace_invalid_def filename_char_def strip_edge_hyphens_def trim_hyphens_def replace_runs_def)

section \<open>Verification: padImage\<close>

lemma length_set_rgba [simp]: "length (set_rgba buf idx r g b a) = length buf"
  by (simp add: set_rgba_def)


lemma length_fold_row [simp]:
  "length (fold (\<lambda>x buf. set_rgba buf (idx x) (r x) (g x) (b x) (a x)) xs buf) = length buf"
  by (induction xs arbitrary: buf) simp_all


lemma length_fold_rows [simp]:
  "length (fold (\<lambda>y. fold (\<lambda>x buf. set_rgba buf (idx y x) (r y x) (g y x) (b y x) (a y x)) (xs y))
             ys buf) = length buf"
  by (induction ys arbitrary: buf) simp_all






lemma width_padImage [simp]: "width (padImage png tw th) = tw"
  by (simp add: padImage_def new_PNG_def Let_def)

lemma height_padImage [simp]: "height (padImage png tw th) = th"
  by (simp add: padImage_def new_PNG_def Let_def)

lemma length_padImage:
  assumes "length (data png) = width png * height png * 4"
  shows "length (data (padImage png tw th)) = tw * th * 4"
  using assms by (simp add: padImage_def new_PNG_def Let_def copy_pixels_def fill_white_def)





section \<open>Verification: compareScreenshots\<close>




lemma compareScreenshots_decoded:
  assumes b: "fs beforePath = Some (PngFile bimg)" and a: "fs afterPath = Some (PngFile aimg)"
    and l1: "length (data bimg) = width bimg * height bimg * 4"
    and l2: "length (data aimg) = width aimg * height aimg * 4"
  shows "compareScreenshots L fs beforePath afterPath dp =
          (let w = max (width bimg) (width aimg);
               h = max (height bimg) (height aimg);
               differ = (width bimg \<noteq> width aimg \<or> height bimg \<noteq> height aimg);
               p1 = data (if differ then padImage bimg w h else bimg);
               p2 = data (if differ then padImage aimg w h else aimg);
               n = (if p1 = p2 then 0
                    else length (filter (\<lambda>(x, y). pixel_differs L p1 p2 w h x y)
                           (pixel_positions w h)))
           in (Inr \<lparr>diffPixels = n, totalPixels = w * h,
                     diffPercentage = map_option (\<lambda>q. q * 100) (js_div n (w * h)),
                     diffPath = dp, dimensionsDiffer = differ,
                     beforeDimensions = \<lparr>width = w, height = h\<rparr>,
                     afterDimensions = \<lparr>width = w, height = h\<rparr>\<rparr>,
               writePng (mkdir_if_missing fs (path_dirname L dp))
                 \<lparr>width = w, height = h, data = diff_output L p1 p2 w h\<rparr> dp))"
proof (cases "width bimg \<noteq> width aimg \<or> height bimg \<noteq> height aimg")
  case True
  let ?w = "max (width bimg) (width aimg)" and ?h = "max (height bimg) (height aimg)"
  have "length (data (padImage bimg ?w ?h)) = ?w * ?h * 4"
    and "length (data (padImage aimg ?w ?h)) = ?w * ?h * 4"
    using l1 l2 by (simp_all add: length_padImage)
  then show ?thesis
    using True a b
    by (simp add: compareScreenshots_def existsSync_def readPng_def Let_def pixelmatch_def
        new_PNG_def)
next
  case False
  then have same: "width aimg = width bimg" "height aimg = height bimg" by simp_all
  show ?thesis
    using a b l1 l2 same
    by (simp add: compareScreenshots_def existsSync_def readPng_def Let_def pixelmatch_def
        new_PNG_def)
qed


lemma sample_fs_before:
  "sample_fs ''out/before/page-about-desktop.png'' = Some (PngFile (solid_image black_pixel 2 2))"
  by (simp add: sample_fs_def)

lemma sample_fs_after:
  "sample_fs ''out/after/page-about-desktop.png'' =
     Some (PngFile (two_band_image black_pixel white_pixel 2 2 2))"
  by (simp add: sample_fs_def)



lemma length_concat_replicate: "length px = 4 \<Longrightarrow> length (concat (replicate n px)) = n * 4"
  by (induction n) simp_all



lemma solid_image_simps [simp]:
  "width (solid_image px w h) = w" "height (solid_image px w h) = h"
  by (simp_all add: solid_image_def)

lemma two_band_image_simps [simp]:
  "width (two_band_image upper lower w h k) = w"
  "height (two_band_image upper lower w h k) = h + k"
  by (simp_all add: two_band_image_def)

lemma valid_solid_image: "length px = 4 \<Longrightarrow> valid_png (solid_image px w h)"
  by (simp add: valid_png_def length_concat_replicate) (simp add: solid_image_def length_concat_replicate)

lemma valid_two_band_image:
  "length upper = 4 \<Longrightarrow> length lower = 4 \<Longrightarrow> valid_png (two_band_image upper lower w h k)"
  by (simp add: valid_png_def)
     (simp add: two_band_image_def length_concat_replicate algebra_simps)






text \<open>
  Claim C1 fails on the code.  \<open>beforeDimensions\<close> and \<open>afterDimensions\<close> are read
  from \<open>img1\<close> and \<open>img2\<close> after the padding has replaced them, so both always report
  the canvas: the larger width and the larger height, not the dimensions each image had.
\<close>

theorem compareScreenshots_reports_canvas_as_before_dimensions:
  assumes "fs beforePath = Some (PngFile bimg)" and "fs afterPath = Some (PngFile aimg)"
    and "valid_png bimg" and "valid_png aimg"
  shows "\<exists>r fs'. compareScreenshots L fs beforePath afterPath dp = (Inr r, fs') \<and>
           beforeDimensions r =
             \<lparr>width = max (width bimg) (width aimg), height = max (height bimg) (height aimg)\<rparr> \<and>
           afterDimensions r =
             \<lparr>width = max (width bimg) (width aimg), height = max (height bimg) (height aimg)\<rparr>"
proof -
  from assms(3,4) have "length (data bimg) = width bimg * height bimg * 4"
    and "length (data aimg) = width aimg * height aimg * 4"
    by (simp_all add: valid_png_def)
  from compareScreenshots_decoded [OF assms(1,2) this, of L dp]
  show ?thesis by (simp add: Let_def)
qed

text \<open>
  At a 2 x 2 before-image and a 2 x 4 after-image the result reports 2 x 4 as the
  dimensions of the before-image.
\<close>

theorem compareScreenshots_reports_canvas_as_before_dimensions_witness:
  "sample_fs ''out/before/page-about-desktop.png'' = Some (PngFile (solid_image black_pixel 2 2)) \<and>
   width (solid_image black_pixel 2 2) = 2 \<and> height (solid_image black_pixel 2 2) = 2 \<and>
   (\<exists>r fs'. compareScreenshots sample_lib sample_fs ''out/before/page-about-desktop.png''
      ''out/after/page-about-desktop.png'' ''out/diff/page-about-desktop-diff.png'' = (Inr r, fs') \<and>
      beforeDimensions r = \<lparr>width = 2, height = 4\<rparr>)"
  using compareScreenshots_reports_canvas_as_before_dimensions [where fs = sample_fs
      and L = sample_lib and beforePath = "''out/before/page-about-desktop.png''"
      and afterPath = "''out/after/page-about-desktop.png''"
      and dp = "''out/diff/page-about-desktop-diff.png''"
      and bimg = "solid_image black_pixel 2 2"
      and aimg = "two_band_image black_pixel white_pixel 2 2 2"]
  by (simp add: sample_fs_before sample_fs_after valid_solid_image valid_two_band_image
      black_pixel_def white_pixel_def) blast



section \<open>Verification: generateDiffComparisons\<close>

lemma compareScreenshots_missing:
  assumes "fs beforePath = None \<or> fs afterPath = None"
  shows "\<exists>e. compareScreenshots L fs beforePath afterPath dp = (Inl e, fs)"
  using assms by (auto simp: compareScreenshots_def existsSync_def)

lemma compareScreenshots_failure_keeps_fs:
  "compareScreenshots L fs beforePath afterPath dp = (Inl e, fs') \<Longrightarrow> fs' = fs"
  by (auto simp: compareScreenshots_def Let_def split: if_splits sum.splits)


lemma compare_pair_appends:
  "\<exists>ys fs'. compare_pair L config diffFolder b (acc, fs) = (acc @ ys, fs')"
  by (auto simp: compare_pair_def Let_def split: option.splits sum.splits prod.splits)

lemma fold_compare_pair_appends:
  "\<exists>ys fs'. fold (compare_pair L config diffFolder) bs (acc, fs) = (acc @ ys, fs')"
proof (induction bs arbitrary: acc fs)
  case Nil
  show ?case by simp
next
  case (Cons b bs)
  obtain ys fs1 where s: "compare_pair L config diffFolder b (acc, fs) = (acc @ ys, fs1)"
    using compare_pair_appends by blast
  from Cons [of "acc @ ys" fs1] obtain zs fs2 where
    "fold (compare_pair L config diffFolder) bs (acc @ ys, fs1) = (acc @ ys @ zs, fs2)" by auto
  with s show ?case by auto
qed



lemma pairs_of_Nil [simp]: "pairs_of config [] = []"
  by (simp add: pairs_of_def)















text \<open>
  Claim C4.  Let the loop of \<open>generateDiffComparisons\<close> have reached a before-record
  \<open>b\<close> with after-record \<open>a\<close>, with \<open>acc\<close> the comparisons pushed so far, and let a
  screenshot of the pair be missing when its comparison starts (a desktop file, or a mobile
  file once the desktop comparison has run).  Then \<open>compareScreenshots\<close> raises an error
  for the pair, the loop body leaves \<open>acc\<close> as it is, the function goes on with the rest
  of the before-set from \<open>acc\<close>, and \<open>acc\<close> is a prefix of what it returns.
\<close>

theorem generateDiffComparisons_skips_missing_pair:
  assumes split: "beforeScreenshots config = pre @ b # rest"
    and st: "fold (compare_pair L config (path_join L (projectFolder config) ''diff'')) pre
               ([], mkdir_if_missing fs0 (path_join L (projectFolder config) ''diff'')) = (acc, fs)"
    and fa: "find_after config b = Some a"
    and missing:
      "fs (path_join L (projectFolder config) (desktopPath b)) = None \<or>
       fs (path_join L (projectFolder config) (desktopPath a)) = None \<or>
       (let fs1 = snd (compareScreenshots L fs
                         (path_join L (projectFolder config) (desktopPath b))
                         (path_join L (projectFolder config) (desktopPath a))
                         (path_join L (path_join L (projectFolder config) ''diff'')
                            (postType b @ ''-'' @ slug b @ ''-desktop-diff.png'')))
        in fs1 (path_join L (projectFolder config) (mobilePath b)) = None \<or>
           fs1 (path_join L (projectFolder config) (mobilePath a)) = None)"
  shows "\<exists>e fs'.
           (compareScreenshots L fs
              (path_join L (projectFolder config) (desktopPath b))
              (path_join L (projectFolder config) (desktopPath a))
              (path_join L (path_join L (projectFolder config) ''diff'')
                 (postType b @ ''-'' @ slug b @ ''-desktop-diff.png'')) = (Inl e, fs') \<or>
            compareScreenshots L fs'
              (path_join L (projectFolder config) (mobilePath b))
              (path_join L (projectFolder config) (mobilePath a))
              (path_join L (path_join L (projectFolder config) ''diff'')
                 (postType b @ ''-'' @ slug b @ ''-mobile-diff.png'')) = (Inl e, fs')) \<and>
           compare_pair L config (path_join L (projectFolder config) ''diff'') b (acc, fs) =
             (acc, fs') \<and>
           generateDiffComparisons L config fs0 =
             fold (compare_pair L config (path_join L (projectFolder config) ''diff'')) rest
               (acc, fs') \<and>
           prefix acc (fst (generateDiffComparisons L config fs0))"
proof -
  let ?pf = "projectFolder config"
  let ?df = "path_join L ?pf ''diff''"
  let ?body = "compare_pair L config ?df"
  let ?desktop = "compareScreenshots L fs (path_join L ?pf (desktopPath b))
      (path_join L ?pf (desktopPath a))
      (path_join L ?df (postType b @ ''-'' @ slug b @ ''-desktop-diff.png''))"
  have step: "\<exists>e fs'. (?desktop = (Inl e, fs') \<or>
      compareScreenshots L fs' (path_join L ?pf (mobilePath b)) (path_join L ?pf (mobilePath a))
        (path_join L ?df (postType b @ ''-'' @ slug b @ ''-mobile-diff.png'')) = (Inl e, fs')) \<and>
      ?body b (acc, fs) = (acc, fs')"
  proof -
    obtain res fs1 where d: "?desktop = (res, fs1)" by (cases ?desktop)
    show ?thesis
    proof (cases res)
      case (Inl e)
      with fa d have "?body b (acc, fs) = (acc, fs1)"
        by (simp add: compare_pair_def Let_def)
      with d Inl show ?thesis by blast
    next
      case (Inr r)
      have present: "\<not> (fs (path_join L ?pf (desktopPath b)) = None \<or>
          fs (path_join L ?pf (desktopPath a)) = None)"
      proof
        assume "fs (path_join L ?pf (desktopPath b)) = None \<or>
          fs (path_join L ?pf (desktopPath a)) = None"
        with compareScreenshots_missing [of fs "path_join L ?pf (desktopPath b)"
            "path_join L ?pf (desktopPath a)" L
            "path_join L ?df (postType b @ ''-'' @ slug b @ ''-desktop-diff.png'')"] d Inr
        show False by simp
      qed
      with missing d have "fs1 (path_join L ?pf (mobilePath b)) = None \<or>
          fs1 (path_join L ?pf (mobilePath a)) = None"
        by (auto simp: Let_def)
      with compareScreenshots_missing [of fs1 "path_join L ?pf (mobilePath b)"
          "path_join L ?pf (mobilePath a)" L
          "path_join L ?df (postType b @ ''-'' @ slug b @ ''-mobile-diff.png'')"]
      obtain e where m: "compareScreenshots L fs1 (path_join L ?pf (mobilePath b))
          (path_join L ?pf (mobilePath a))
          (path_join L ?df (postType b @ ''-'' @ slug b @ ''-mobile-diff.png'')) =
          (Inl e, fs1)" by blast
      with fa d Inr have "?body b (acc, fs) = (acc, fs1)"
        by (simp add: compare_pair_def Let_def)
      with m show ?thesis by blast
    qed
  qed
  then obtain e fs' where raised: "?desktop = (Inl e, fs') \<or>
      compareScreenshots L fs' (path_join L ?pf (mobilePath b)) (path_join L ?pf (mobilePath a))
        (path_join L ?df (postType b @ ''-'' @ slug b @ ''-mobile-diff.png'')) = (Inl e, fs')"
    and skipped: "?body b (acc, fs) = (acc, fs')" by (elim exE conjE)
  have run: "generateDiffComparisons L config fs0 = fold ?body rest (acc, fs')"
    using split st skipped by (simp add: generateDiffComparisons_def Let_def)
  obtain ys fs2 where "fold ?body rest (acc, fs') = (acc @ ys, fs2)"
    using fold_compare_pair_appends by blast
  with run have "prefix acc (fst (generateDiffComparisons L config fs0))" by simp
  with raised skipped run show ?thesis by blast
qed

lemma sample_lib_path_join [simp]: "path_join sample_lib a b = a @ ''/'' @ b"
  by (simp add: sample_lib_def)

lemma session_before:
  "beforeScreenshots session_config =
     [shot ''before'' ''page'' ''a'' ''http://site/?p=1'',
      shot ''before'' ''page'' ''b'' ''http://site/b'',
      shot ''before'' ''post'' ''c'' ''http://site/c'']"
  by (simp add: session_config_def)

lemma session_find_after:
  "find_after session_config (shot ''before'' ''page'' ''a'' ''http://site/?p=1'') =
     Some (shot ''after'' ''page'' ''a'' ''http://site/a'')"
  "find_after session_config (shot ''before'' ''page'' ''b'' ''http://site/b'') = None"
  "find_after session_config (shot ''before'' ''post'' ''c'' ''http://site/c'') =
     Some (shot ''after'' ''post'' ''c'' ''http://site/c'')"
  by (simp_all add: find_after_def session_config_def shot_def)




lemma valid_black_2x2: "valid_png (solid_image black_pixel 2 2)"
  by (rule valid_solid_image) (simp add: black_pixel_def)



lemma session_fs_missing_entries:
  "mkdir_if_missing session_fs_missing ''out/diff'' ''out/after/page-a-desktop.png'' = None"
  "mkdir_if_missing session_fs_missing ''out/diff'' ''out/before/page-a-desktop.png'' \<noteq> None"
  "list_all (readable (mkdir_if_missing session_fs_missing ''out/diff''))
     [''out/before/post-c-desktop.png'', ''out/after/post-c-desktop.png'',
      ''out/before/post-c-mobile.png'', ''out/after/post-c-mobile.png'']"
  by (simp_all add: mkdir_if_missing_def existsSync_def session_fs_missing_def session_fs_def
      readable_def valid_black_2x2)




theorem generateDiffComparisons_skips_missing_pair_witness:
  "\<exists>fs'. generateDiffComparisons sample_lib session_config session_fs_missing =
           fold (compare_pair sample_lib session_config ''out/diff'')
             [shot ''before'' ''page'' ''b'' ''http://site/b'',
              shot ''before'' ''post'' ''c'' ''http://site/c'']
             ([], fs') \<and>
         compare_pair sample_lib session_config ''out/diff''
           (shot ''before'' ''page'' ''a'' ''http://site/?p=1'')
           ([], mkdir_if_missing session_fs_missing ''out/diff'') = ([], fs')"
proof -
  let ?a = "shot ''before'' ''page'' ''a'' ''http://site/?p=1''"
  let ?rest = "[shot ''before'' ''page'' ''b'' ''http://site/b'',
                shot ''before'' ''post'' ''c'' ''http://site/c'']"
  have pf: "path_join sample_lib (projectFolder session_config) ''diff'' = ''out/diff''"
    by (simp add: session_config_def)
  have split: "beforeScreenshots session_config = [] @ ?a # ?rest"
    by (simp add: session_before)
  have st: "fold (compare_pair sample_lib session_config
                (path_join sample_lib (projectFolder session_config) ''diff'')) []
              ([], mkdir_if_missing session_fs_missing
                     (path_join sample_lib (projectFolder session_config) ''diff'')) =
            ([], mkdir_if_missing session_fs_missing ''out/diff'')"
    unfolding pf by simp
  have missing: "mkdir_if_missing session_fs_missing ''out/diff''
       (path_join sample_lib (projectFolder session_config) (desktopPath ?a)) = None \<or>
     mkdir_if_missing session_fs_missing ''out/diff''
       (path_join sample_lib (projectFolder session_config)
          (desktopPath (shot ''after'' ''page'' ''a'' ''http://site/a''))) = None \<or>
     (let fs1 = snd (compareScreenshots sample_lib (mkdir_if_missing session_fs_missing ''out/diff'')
                (path_join sample_lib (projectFolder session_config) (desktopPath ?a))
                (path_join sample_lib (projectFolder session_config)
                   (desktopPath (shot ''after'' ''page'' ''a'' ''http://site/a'')))
                (path_join sample_lib (path_join sample_lib (projectFolder session_config) ''diff'')
                   (postType ?a @ ''-'' @ slug ?a @ ''-desktop-diff.png'')))
      in fs1 (path_join sample_lib (projectFolder session_config) (mobilePath ?a)) = None \<or>
         fs1 (path_join sample_lib (projectFolder session_config)
                (mobilePath (shot ''after'' ''page'' ''a'' ''http://site/a''))) = None)"
    using session_fs_missing_entries(1) by (simp add: session_config_def shot_def)
  from generateDiffComparisons_skips_missing_pair [OF split st session_find_after(1) missing]
  show ?thesis unfolding pf by blast
qed

section \<open>Verification: handleCookieBanner\<close>










lemma banner_world_simps [simp]:
  "rejects banner_world h c = None"
  "answer banner_world h c \<longleftrightarrow>
     c = IsVisible (RoleButton ''Akzeptieren'') \<or> c = IsVisible (RoleButton ''Accept'')"
  "counted banner_world h c = 0"
  by (simp_all add: banner_world_def)



section \<open>Verification: screenshotUrl and screenshotAll\<close>









lemma launched_manager_simps [simp]:
  "browser launched_manager" "mgr_projectFolder launched_manager = ''out''"
  "mgr_cookieConfig launched_manager = no_cookies"
  by (simp_all add: launched_manager_def new_ScreenshotManager_def)



end
